theory Spec2Isabelle
  imports Main "HOL-Library.Sublist" "HOL-Library.AList"
begin

section \<open>Project Scopes: data model\<close>

text \<open>
  The embedding follows the first variant of \<^verbatim>\<open>extension.js\<close> (classes
  \<^verbatim>\<open>ScopeManager\<close> and \<^verbatim>\<open>FileExplorerTreeDataProvider\<close>) and the
  \<^verbatim>\<open>ScopeFileSystemProvider\<close> class.

  A scope is the object stored under \<^verbatim>\<open>projectScopes.scopes[name]\<close>. The scope
  collection is a JavaScript object used as a dictionary; it is modelled as an association
  list in insertion order, read with \<^const>\<open>map_of\<close>, written with \<^const>\<open>AList.update\<close>
  (replace in place, or append) and \<^const>\<open>AList.delete\<close>. Keys inherited from the
  object prototype are outside the model. JavaScript strings are modelled as \<^typ>\<open>string\<close>.
\<close>

record scope =
  folders :: "string list"
  created :: string
  description :: string

type_synonym scopes = "(string \<times> scope) list"

text \<open>
  The active scope is \<^verbatim>\<open>null\<close> or a string. JavaScript's \<^verbatim>\<open>!activeScope\<close> holds for
  \<^verbatim>\<open>null\<close> and for the empty string (the configuration default).
\<close>

definition falsy :: "string option \<Rightarrow> bool" where
  "falsy v = (case v of None \<Rightarrow> True | Some s \<Rightarrow> s = [])"

section \<open>Visibility filter (\<^verbatim>\<open>ScopeFileSystemProvider.shouldShowEntry\<close>)\<close>

text \<open>
  The global replacement applied to both strings before they are compared: every backslash
  (character code 0x5C) becomes a forward slash.
\<close>

definition normalizeSep :: "string \<Rightarrow> string" where
  "normalizeSep s = map (\<lambda>c. if c = CHR 0x5C then CHR ''/'' else c) s"

text \<open>
  The body of the \<^verbatim>\<open>for (const folder of scopeFolders)\<close> loop, with its two
  \<^verbatim>\<open>return true\<close> statements; falling out of the loop returns \<^verbatim>\<open>false\<close>.
  \<^verbatim>\<open>a.startsWith(b)\<close> is \<^term>\<open>prefix b a\<close>.
\<close>

fun scanFolders :: "string \<Rightarrow> string list \<Rightarrow> bool" where
  "scanFolders relativePath [] = False"
| "scanFolders relativePath (folder # rest) =
     (let normalizedFolder = normalizeSep folder;
          normalizedPath = normalizeSep relativePath
      in if normalizedPath = normalizedFolder \<or> prefix (normalizedFolder @ ''/'') normalizedPath
         then True
         else if prefix (normalizedPath @ ''/'') normalizedFolder
         then True
         else scanFolders relativePath rest)"

definition shouldShowEntry :: "string \<Rightarrow> string option \<Rightarrow> scopes \<Rightarrow> bool" where
  "shouldShowEntry relativePath activeScope scps =
     (case activeScope of
        None \<Rightarrow> True
      | Some a \<Rightarrow>
          if a = [] then True
          else (case map_of scps a of
                  None \<Rightarrow> True
                | Some sc \<Rightarrow> scanFolders relativePath (folders sc)))"

section \<open>Paths and the file system\<close>

text \<open>
  Paths handed to Node's \<^verbatim>\<open>path\<close> and \<^verbatim>\<open>fs\<close> modules are modelled by their list of
  components below the file-system root. \<^verbatim>\<open>path.join(dir, name)\<close> with an entry name
  returned by \<^verbatim>\<open>readdir\<close> appends one component; \<^verbatim>\<open>path.relative(from, to)\<close>
  climbs out of what \<open>from\<close> does not share with \<open>to\<close> and descends into the rest of
  \<open>to\<close>.
\<close>

type_synonym path = "string list"

definition path_join :: "path \<Rightarrow> string \<Rightarrow> path" where
  "path_join dir entryName = dir @ [entryName]"

definition path_relative :: "path \<Rightarrow> path \<Rightarrow> path" where
  "path_relative from to =
     (let k = length (longest_common_prefix from to)
      in replicate (length from - k) ''..'' @ drop k to)"

text \<open>
  Rendering of paths as strings with the platform separator \<open>sep\<close>, and the string functions
  \<^verbatim>\<open>path.resolve\<close> and \<^verbatim>\<open>path.basename\<close> over such strings.
\<close>

fun joinWith :: "char \<Rightarrow> string list \<Rightarrow> string" where
  "joinWith sep [] = []"
| "joinWith sep [c] = c"
| "joinWith sep (c # cs) = c @ sep # joinWith sep cs"

definition absString :: "char \<Rightarrow> path \<Rightarrow> string" where
  "absString sep p = (if p = [] then [sep] else concat (map (\<lambda>c. sep # c) p))"

fun splitOn :: "char \<Rightarrow> string \<Rightarrow> string list" where
  "splitOn sep [] = [[]]"
| "splitOn sep (c # cs) =
     (if c = sep then [] # splitOn sep cs
      else (case splitOn sep cs of [] \<Rightarrow> [[c]] | w # ws \<Rightarrow> (c # w) # ws))"

fun applySegments :: "path \<Rightarrow> string list \<Rightarrow> path" where
  "applySegments p [] = p"
| "applySegments p (s # ss) =
     (if s = [] \<or> s = ''.'' then applySegments p ss
      else if s = ''..'' then applySegments (butlast p) ss
      else applySegments (p @ [s]) ss)"

definition path_resolve :: "char \<Rightarrow> path \<Rightarrow> string \<Rightarrow> path" where
  "path_resolve sep base s =
     (if prefix [sep] s then applySegments [] (splitOn sep s)
      else applySegments base (splitOn sep s))"

definition path_basename :: "char \<Rightarrow> string \<Rightarrow> string" where
  "path_basename sep s =
     (case filter (\<lambda>c. c \<noteq> []) (splitOn sep s) of [] \<Rightarrow> [] | c # cs \<Rightarrow> last (c # cs))"

text \<open>
  The file system is a tree. \<open>Denied\<close> is a directory whose \<^verbatim>\<open>readdir\<close> fails;
  \<^verbatim>\<open>readdir\<close> also fails on a file and on a path that does not exist. A directory entry
  (\<^verbatim>\<open>fs.Dirent\<close>) carries its name and \<^verbatim>\<open>isDirectory()\<close>.
\<close>

datatype fsnode = FileNode | DirNode "(string \<times> fsnode) list" | Denied

fun fsLookup :: "fsnode \<Rightarrow> path \<Rightarrow> fsnode option" where
  "fsLookup nd [] = Some nd"
| "fsLookup (DirNode es) (c # cs) =
     (case map_of es c of None \<Rightarrow> None | Some nd \<Rightarrow> fsLookup nd cs)"
| "fsLookup nd (c # cs) = None"

definition isDir :: "fsnode \<Rightarrow> bool" where
  "isDir nd = (case nd of FileNode \<Rightarrow> False | _ \<Rightarrow> True)"

record dirent =
  dname :: string
  isDirectory :: bool

definition readdir :: "fsnode \<Rightarrow> path \<Rightarrow> dirent list option" where
  "readdir fs p =
     (case fsLookup fs p of
        Some (DirNode es) \<Rightarrow> Some (map (\<lambda>(n, nd). \<lparr>dname = n, isDirectory = isDir nd\<rparr>) es)
      | _ \<Rightarrow> None)"

text \<open>\<^verbatim>\<open>(await fs.promises.stat(p)).isDirectory()\<close>; \<open>None\<close> when \<^verbatim>\<open>stat\<close> throws.\<close>

definition statIsDirectory :: "fsnode \<Rightarrow> path \<Rightarrow> bool option" where
  "statIsDirectory fs p = (case fsLookup fs p of None \<Rightarrow> None | Some nd \<Rightarrow> Some (isDir nd))"

section \<open>Directory enumerator (\<^verbatim>\<open>ScopeManager.getDirectoriesRecursive\<close>)\<close>

text \<open>
  The \<^verbatim>\<open>try\<close> block covers the whole loop; a failing \<^verbatim>\<open>readdir\<close> leaves
  \<^verbatim>\<open>folders\<close> empty. The recursive calls catch their own failures. The depths are
  the non-negative integers of the call sites (\<^verbatim>\<open>maxDepth = 3\<close>,
  \<^verbatim>\<open>currentDepth = 0\<close> by default, then \<^verbatim>\<open>currentDepth + 1\<close>).
\<close>

function getDirectoriesRecursive :: "fsnode \<Rightarrow> path \<Rightarrow> path \<Rightarrow> nat \<Rightarrow> nat \<Rightarrow> path list" where
  "getDirectoriesRecursive fs dirPath workspaceRoot maxDepth currentDepth =
     (if currentDepth \<ge> maxDepth then []
      else (case readdir fs dirPath of
              None \<Rightarrow> []
            | Some items \<Rightarrow>
                concat (map (\<lambda>item.
                  if isDirectory item \<and> \<not> prefix ''.'' (dname item) \<and> dname item \<noteq> ''node_modules''
                  then (let fullPath = path_join dirPath (dname item);
                            relativePath = path_relative workspaceRoot fullPath
                        in relativePath #
                           getDirectoriesRecursive fs fullPath workspaceRoot maxDepth (currentDepth + 1))
                  else []) items)))"
  by pat_completeness auto
termination
  by (relation "measure (\<lambda>(fs, dirPath, workspaceRoot, maxDepth, currentDepth). maxDepth - currentDepth)") auto

declare getDirectoriesRecursive.simps [simp del]

section \<open>Scope store (\<^verbatim>\<open>ScopeManager\<close>)\<close>

text \<open>
  The manager holds the scope collection and the active scope in memory. The workspace
  configuration written by \<^verbatim>\<open>saveScopes\<close> is part of the state (\<open>cfgScopes\<close>,
  \<open>cfgActiveScope\<close>), and \<open>trace\<close> records, in order, each configuration update that
  succeeded and each \<^verbatim>\<open>_onScopeChanged.fire()\<close>. Status bar text and information
  messages are not modelled.
\<close>

datatype effect = SavedScopes | SavedActiveScope | ScopeChanged

record manager =
  scopes :: scopes
  activeScope :: "string option"
  cfgScopes :: scopes
  cfgActiveScope :: "string option"
  trace :: "effect list"

definition getScopes :: "manager \<Rightarrow> scopes" where
  "getScopes m = scopes m"

definition getActiveScope :: "manager \<Rightarrow> string option" where
  "getActiveScope m = activeScope m"

definition loadScopes :: "manager \<Rightarrow> manager" where
  "loadScopes m = m\<lparr>scopes := cfgScopes m, activeScope := cfgActiveScope m\<rparr>"

text \<open>
  \<^verbatim>\<open>saveScopes\<close> awaits two configuration updates, first the scopes, then the active
  scope. Either may be rejected, which throws out of \<^verbatim>\<open>saveScopes\<close> and out of the
  calling operation; the first component of the result tells whether it returned normally.
\<close>

datatype saveResult = SaveOk | ScopesUpdateFails | ActiveScopeUpdateFails

definition saveScopes :: "manager \<Rightarrow> saveResult \<Rightarrow> bool \<times> manager" where
  "saveScopes m r =
     (case r of
        ScopesUpdateFails \<Rightarrow> (False, m)
      | ActiveScopeUpdateFails \<Rightarrow>
          (False, m\<lparr>cfgScopes := scopes m, trace := trace m @ [SavedScopes]\<rparr>)
      | SaveOk \<Rightarrow>
          (True, m\<lparr>cfgScopes := scopes m, cfgActiveScope := activeScope m,
                   trace := trace m @ [SavedScopes, SavedActiveScope]\<rparr>))"

definition fire :: "manager \<Rightarrow> manager" where
  "fire m = m\<lparr>trace := trace m @ [ScopeChanged]\<rparr>"

text \<open>
  Result of a command. \<open>Done\<close>: the command ran to its end. \<open>NoOp\<close>: it returned early
  without an error (dialog dismissed, nothing to do). \<open>Failed\<close>: the input box refused the
  value with a validation message, an error message was shown, or \<^verbatim>\<open>saveScopes\<close>
  threw.
\<close>

datatype error = EmptyName | DuplicateName | NotFound | SaveFailed

datatype outcome = Done | NoOp | Failed error

text \<open>
  \<^verbatim>\<open>String.prototype.trim\<close> on the white space characters a \<^typ>\<open>char\<close> can hold.
\<close>

definition isSpace :: "char \<Rightarrow> bool" where
  "isSpace c = (c \<in> set [CHR 0x09, CHR 0x0A, CHR 0x0B, CHR 0x0C, CHR 0x0D, CHR 0x20, CHR 0xA0])"

definition trim :: "string \<Rightarrow> string" where
  "trim s = rev (dropWhile isSpace (rev (dropWhile isSpace s)))"

text \<open>
  The \<^verbatim>\<open>validateInput\<close> callbacks of the two name input boxes. An input box does not
  accept a value for which the callback returns a message; the model reports that message
  as the command's error and leaves the manager unchanged.
\<close>

definition validateCreate :: "scopes \<Rightarrow> string \<Rightarrow> error option" where
  "validateCreate scps v =
     (if trim v = [] then Some EmptyName
      else if map_of scps v \<noteq> None then Some DuplicateName
      else None)"

definition validateRename :: "scopes \<Rightarrow> string \<Rightarrow> string \<Rightarrow> error option" where
  "validateRename scps oldName v =
     (if trim v = [] then Some EmptyName
      else if v \<noteq> oldName \<and> map_of scps v \<noteq> None then Some DuplicateName
      else None)"

definition setActiveScope :: "manager \<Rightarrow> string \<Rightarrow> saveResult \<Rightarrow> outcome \<times> manager" where
  "setActiveScope m scopeName r =
     (case map_of (scopes m) scopeName of
        None \<Rightarrow> (Failed NotFound, m)
      | Some sc \<Rightarrow>
          (case saveScopes (m\<lparr>activeScope := Some scopeName\<rparr>) r of
             (False, m') \<Rightarrow> (Failed SaveFailed, m')
           | (True, m') \<Rightarrow> (Done, fire m')))"

definition clearActiveScope :: "manager \<Rightarrow> saveResult \<Rightarrow> outcome \<times> manager" where
  "clearActiveScope m r =
     (if falsy (activeScope m) then (NoOp, m)
      else (case saveScopes (m\<lparr>activeScope := None\<rparr>) r of
              (False, m') \<Rightarrow> (Failed SaveFailed, m')
            | (True, m') \<Rightarrow> (Done, fire m')))"

text \<open>
  \<^verbatim>\<open>createScope\<close>. \<open>typed\<close> is what the user submits to the name box (\<open>None\<close>: dismissed),
  \<open>selection\<close> the result of \<^verbatim>\<open>selectFolders\<close> (the labels picked from the enumerated
  folders; \<open>None\<close>: no workspace folder or dismissed), \<open>now\<close> the time stamp,
  \<open>activate\<close> the answer to the activation question, \<open>r1\<close> and \<open>r2\<close> the results of the
  two saves.
\<close>

definition createScope ::
  "manager \<Rightarrow> string option \<Rightarrow> string list option \<Rightarrow> string \<Rightarrow> string option
     \<Rightarrow> saveResult \<Rightarrow> saveResult \<Rightarrow> outcome \<times> manager" where
  "createScope m typed selection now activate r1 r2 =
     (case typed of
        None \<Rightarrow> (NoOp, m)
      | Some scopeName \<Rightarrow>
          (case validateCreate (scopes m) scopeName of
             Some e \<Rightarrow> (Failed e, m)
           | None \<Rightarrow>
               if scopeName = [] then (NoOp, m)
               else (case selection of
                       None \<Rightarrow> (NoOp, m)
                     | Some fldrs \<Rightarrow>
                         if fldrs = [] then (NoOp, m)
                         else (case saveScopes
                                      (m\<lparr>scopes := AList.update scopeName
                                            \<lparr>folders = fldrs, created = now, description = []\<rparr>
                                            (scopes m)\<rparr>) r1 of
                                 (False, m') \<Rightarrow> (Failed SaveFailed, m')
                               | (True, m') \<Rightarrow>
                                   if activate = Some ''Yes''
                                   then setActiveScope m' scopeName r2
                                   else (Done, m')))))"

text \<open>
  The three edit commands are reached through \<^verbatim>\<open>editScope\<close>, which has checked that the
  scope exists; \<open>sc\<close> is \<^verbatim>\<open>this.scopes[scopeName]\<close> as read there.
\<close>

definition editScopeName ::
  "manager \<Rightarrow> string \<Rightarrow> scope \<Rightarrow> string option \<Rightarrow> saveResult \<Rightarrow> outcome \<times> manager" where
  "editScopeName m oldName sc typed r =
     (case typed of
        None \<Rightarrow> (NoOp, m)
      | Some newName \<Rightarrow>
          (case validateRename (scopes m) oldName newName of
             Some e \<Rightarrow> (Failed e, m)
           | None \<Rightarrow>
               if newName = [] \<or> newName = oldName then (NoOp, m)
               else (let m1 = m\<lparr>scopes := AList.delete oldName
                                              (AList.update newName sc (scopes m))\<rparr>;
                         m2 = (if activeScope m1 = Some oldName
                               then m1\<lparr>activeScope := Some newName\<rparr> else m1)
                     in case saveScopes m2 r of
                          (False, m') \<Rightarrow> (Failed SaveFailed, m')
                        | (True, m') \<Rightarrow> (Done, fire m'))))"

definition editScopeFolders ::
  "manager \<Rightarrow> string \<Rightarrow> scope \<Rightarrow> string list option \<Rightarrow> saveResult \<Rightarrow> outcome \<times> manager" where
  "editScopeFolders m scopeName sc selection r =
     (case selection of
        None \<Rightarrow> (NoOp, m)
      | Some fldrs \<Rightarrow>
          (case saveScopes
                  (m\<lparr>scopes := AList.update scopeName (sc\<lparr>folders := fldrs\<rparr>) (scopes m)\<rparr>) r of
             (False, m') \<Rightarrow> (Failed SaveFailed, m')
           | (True, m') \<Rightarrow> (Done, fire m')))"

definition editScopeDescription ::
  "manager \<Rightarrow> string \<Rightarrow> scope \<Rightarrow> string option \<Rightarrow> saveResult \<Rightarrow> outcome \<times> manager" where
  "editScopeDescription m scopeName sc typed r =
     (case typed of
        None \<Rightarrow> (NoOp, m)
      | Some descr \<Rightarrow>
          (case saveScopes
                  (m\<lparr>scopes := AList.update scopeName (sc\<lparr>description := descr\<rparr>) (scopes m)\<rparr>) r of
             (False, m') \<Rightarrow> (Failed SaveFailed, m')
           | (True, m') \<Rightarrow> (Done, m')))"

text \<open>
  \<^verbatim>\<open>editScope\<close>. \<open>scopeName\<close> is the command's argument, \<open>picked\<close> the scope chosen from
  the list when there is no argument, \<open>action\<close> the chosen edit together with the input
  given to its dialog (\<open>None\<close>: the choice was dismissed).
\<close>

datatype editAction =
  EditName "string option" | EditFolders "string list option" | EditDescription "string option"

definition editScope ::
  "manager \<Rightarrow> string option \<Rightarrow> string option \<Rightarrow> editAction option \<Rightarrow> saveResult
     \<Rightarrow> outcome \<times> manager" where
  "editScope m scopeName picked action r =
     (if falsy scopeName \<and> scopes m = [] then (NoOp, m)
      else (case (if falsy scopeName then picked else scopeName) of
              None \<Rightarrow> (NoOp, m)
            | Some n \<Rightarrow>
                if n = [] then (NoOp, m)
                else (case map_of (scopes m) n of
                        None \<Rightarrow> (NoOp, m)
                      | Some sc \<Rightarrow>
                          (case action of
                             None \<Rightarrow> (NoOp, m)
                           | Some (EditName typed) \<Rightarrow> editScopeName m n sc typed r
                           | Some (EditFolders selection) \<Rightarrow> editScopeFolders m n sc selection r
                           | Some (EditDescription typed) \<Rightarrow> editScopeDescription m n sc typed r))))"

text \<open>
  \<^verbatim>\<open>deleteScope\<close>. \<open>confirmation\<close> is the button pressed in the warning dialog.
\<close>

definition deleteScope ::
  "manager \<Rightarrow> string option \<Rightarrow> string option \<Rightarrow> string option \<Rightarrow> saveResult
     \<Rightarrow> outcome \<times> manager" where
  "deleteScope m scopeName picked confirmation r =
     (if falsy scopeName \<and> scopes m = [] then (NoOp, m)
      else (case (if falsy scopeName then picked else scopeName) of
              None \<Rightarrow> (NoOp, m)
            | Some n \<Rightarrow>
                if n = [] \<or> map_of (scopes m) n = None then (NoOp, m)
                else if confirmation \<noteq> Some ''Delete'' then (NoOp, m)
                else (let m1 = m\<lparr>scopes := AList.delete n (scopes m)\<rparr>;
                          m2 = (if activeScope m1 = Some n
                                then m1\<lparr>activeScope := None\<rparr> else m1)
                      in case saveScopes m2 r of
                           (False, m') \<Rightarrow> (Failed SaveFailed, m')
                         | (True, m') \<Rightarrow> (Done, fire m'))))"

section \<open>Filtered file system overlay (\<^verbatim>\<open>ScopeFileSystemProvider\<close>)\<close>

text \<open>
  \<open>workspaceFolders\<close> lists the paths of \<^verbatim>\<open>vscode.workspace.workspaceFolders\<close>; an
  undefined value is treated like the empty list by every check in the source.
\<close>

fun relativeToFirst :: "char \<Rightarrow> path list \<Rightarrow> path \<Rightarrow> string" where
  "relativeToFirst sep [] absolutePath = absString sep absolutePath"
| "relativeToFirst sep (workspacePath # rest) absolutePath =
     (if prefix (absString sep workspacePath) (absString sep absolutePath)
      then joinWith sep (path_relative workspacePath absolutePath)
      else relativeToFirst sep rest absolutePath)"

definition getRelativePath :: "char \<Rightarrow> path list \<Rightarrow> path \<Rightarrow> string" where
  "getRelativePath sep workspaceFolders absolutePath =
     (if workspaceFolders = [] then absString sep absolutePath
      else relativeToFirst sep workspaceFolders absolutePath)"

datatype fileType = FileType_File | FileType_Directory

datatype fsError = FileNotFound path

definition readDirectory ::
  "char \<Rightarrow> fsnode \<Rightarrow> path list \<Rightarrow> manager \<Rightarrow> path \<Rightarrow> fsError + (string \<times> fileType) list" where
  "readDirectory sep fs workspaceFolders m fsPath =
     (case readdir fs fsPath of
        None \<Rightarrow> Inl (FileNotFound fsPath)
      | Some entries \<Rightarrow>
          Inr (map (\<lambda>entry. (dname entry,
                              if isDirectory entry then FileType_Directory else FileType_File))
                 (filter (\<lambda>entry.
                     shouldShowEntry
                       (getRelativePath sep workspaceFolders (path_join fsPath (dname entry)))
                       (getActiveScope m) (getScopes m))
                   entries)))"

section \<open>Scoped file tree (\<^verbatim>\<open>FileExplorerTreeDataProvider.getChildren\<close>)\<close>

record element =
  name :: string
  uri :: path
  ftype :: fileType

text \<open>
  \<^verbatim>\<open>Array.prototype.sort\<close> is stable; it is modelled by a stable insertion sort over the
  comparator. \<^verbatim>\<open>String.prototype.localeCompare\<close> is a parameter.
\<close>

fun insertBy :: "('a \<Rightarrow> 'a \<Rightarrow> int) \<Rightarrow> 'a \<Rightarrow> 'a list \<Rightarrow> 'a list" where
  "insertBy cmp x [] = [x]"
| "insertBy cmp x (y # ys) = (if cmp x y \<le> 0 then x # y # ys else y # insertBy cmp x ys)"

definition sortBy :: "('a \<Rightarrow> 'a \<Rightarrow> int) \<Rightarrow> 'a list \<Rightarrow> 'a list" where
  "sortBy cmp xs = foldr (insertBy cmp) xs []"

definition compareChildren :: "(string \<Rightarrow> string \<Rightarrow> int) \<Rightarrow> element \<Rightarrow> element \<Rightarrow> int" where
  "compareChildren localeCompare a b =
     (if ftype a = ftype b then localeCompare (name a) (name b)
      else if ftype a = FileType_Directory then - 1 else 1)"

text \<open>The branch of \<^verbatim>\<open>getChildren\<close> that lists the children of a directory element.\<close>

definition listChildren :: "(string \<Rightarrow> string \<Rightarrow> int) \<Rightarrow> fsnode \<Rightarrow> path \<Rightarrow> element list" where
  "listChildren localeCompare fs dir =
     (case readdir fs dir of
        None \<Rightarrow> []
      | Some entries \<Rightarrow>
          sortBy (compareChildren localeCompare)
            (map (\<lambda>entry. \<lparr>name = dname entry, uri = path_join dir (dname entry),
                            ftype = (if isDirectory entry then FileType_Directory
                                     else FileType_File)\<rparr>)
               (filter (\<lambda>entry. \<not> (prefix ''.'' (dname entry) \<or> dname entry = ''node_modules''))
                  entries)))"

text \<open>The root level: the folders of the active scope that are directories on disk.\<close>

definition rootItems :: "char \<Rightarrow> fsnode \<Rightarrow> path list \<Rightarrow> string list \<Rightarrow> element list" where
  "rootItems sep fs workspaceFolders scopeFolders =
     concat (map (\<lambda>scopeFolder.
       concat (map (\<lambda>workspaceFolder.
         (let scopePath = path_resolve sep workspaceFolder scopeFolder
          in case statIsDirectory fs scopePath of
               Some True \<Rightarrow> [\<lparr>name = path_basename sep scopeFolder, uri = scopePath,
                               ftype = FileType_Directory\<rparr>]
             | _ \<Rightarrow> [])) workspaceFolders)) scopeFolders)"

definition getChildren ::
  "char \<Rightarrow> (string \<Rightarrow> string \<Rightarrow> int) \<Rightarrow> fsnode \<Rightarrow> path list \<Rightarrow> manager \<Rightarrow> element option
     \<Rightarrow> element list" where
  "getChildren sep localeCompare fs workspaceFolders m el =
     (case getActiveScope m of
        None \<Rightarrow> []
      | Some a \<Rightarrow>
          if a = [] then []
          else (case map_of (getScopes m) a of
                  None \<Rightarrow> []
                | Some sc \<Rightarrow>
                    if workspaceFolders = [] then []
                    else (case el of
                            None \<Rightarrow> rootItems sep fs workspaceFolders (folders sc)
                          | Some e \<Rightarrow> listChildren localeCompare fs (uri e))))"

section \<open>Auxiliary notions for the properties\<close>

text \<open>The name and kind of a tree element, as the overlay reports its entries.\<close>

definition childEntry :: "element \<Rightarrow> string \<times> fileType" where
  "childEntry e = (name e, ftype e)"

text \<open>The names that the enumerator and the file tree skip.\<close>

definition excludedName :: "string \<Rightarrow> bool" where
  "excludedName n = (prefix ''.'' n \<or> n = ''node_modules'')"



text \<open>Every name of the collection has a non-empty trimmed form.\<close>

definition validNames :: "manager \<Rightarrow> bool" where
  "validNames m = list_all (\<lambda>n. trim n \<noteq> []) (map fst (scopes m))"

text \<open>A comparison by character codes, standing for \<^verbatim>\<open>localeCompare\<close> in the examples.\<close>

fun compareCodeUnits :: "string \<Rightarrow> string \<Rightarrow> int" where
  "compareCodeUnits [] [] = 0"
| "compareCodeUnits [] (b # bs) = - 1"
| "compareCodeUnits (a # as) [] = 1"
| "compareCodeUnits (a # as) (b # bs) =
     (if (of_char a :: nat) < of_char b then - 1
      else if (of_char b :: nat) < of_char a then 1
      else compareCodeUnits as bs)"

text \<open>
  An example workspace at \<^verbatim>\<open>/ws\<close> and a manager with the scopes of the README, used to
  evaluate the operations on concrete inputs.
\<close>

definition exampleTree :: fsnode where
  "exampleTree =
     DirNode [(''ws'', DirNode
       [(''.git'', DirNode [(''hooks'', DirNode [])]),
        (''node_modules'', DirNode []),
        (''locked'', Denied),
        (''src'', DirNode
          [(''components'', DirNode
             [(''.cache'', DirNode []),
              (''ui'', DirNode [(''deep'', DirNode [])]),
              (''Header.js'', FileNode)]),
           (''api'', DirNode [(''auth.js'', FileNode)])]),
        (''README.md'', FileNode)])]"

definition frontendScope :: scope where
  "frontendScope =
     \<lparr>folders = [''src/components'', ''src/pages''], created = ''2024-01-01T12:00:00.000Z'',
      description = []\<rparr>"

definition backendScope :: scope where
  "backendScope =
     \<lparr>folders = [''src/api''], created = ''2024-01-01T12:05:00.000Z'', description = []\<rparr>"

definition exampleManager :: manager where
  "exampleManager =
     \<lparr>scopes = [(''Frontend'', frontendScope), (''Backend'', backendScope)],
      activeScope = Some ''Frontend'',
      cfgScopes = [(''Frontend'', frontendScope), (''Backend'', backendScope)],
      cfgActiveScope = Some ''Frontend'',
      trace = []\<rparr>"

definition idleManager :: manager where
  "idleManager =
     \<lparr>scopes = [(''Frontend'', frontendScope), (''Backend'', backendScope)],
      activeScope = None,
      cfgScopes = [(''Frontend'', frontendScope), (''Backend'', backendScope)],
      cfgActiveScope = None,
      trace = []\<rparr>"


section \<open>Properties of the visibility filter\<close>

lemma scanFolders_iff:
  "scanFolders p fs \<longleftrightarrow>
     (\<exists>f \<in> set fs. normalizeSep p = normalizeSep f
        \<or> prefix (normalizeSep f @ ''/'') (normalizeSep p)
        \<or> prefix (normalizeSep p @ ''/'') (normalizeSep f))"
  by (induction fs) (auto simp: Let_def)



lemma shouldShowEntry_falsy: "falsy a \<Longrightarrow> shouldShowEntry p a scps"
  by (auto simp: shouldShowEntry_def falsy_def split: option.splits)

lemma readDirectory_show_all:
  assumes "\<And>p. shouldShowEntry p (activeScope m) (scopes m)"
  shows "readDirectory sep fs workspaceFolders m dir =
     (case readdir fs dir of
        None \<Rightarrow> Inl (FileNotFound dir)
      | Some entries \<Rightarrow>
          Inr (map (\<lambda>entry. (dname entry,
                 if isDirectory entry then FileType_Directory else FileType_File)) entries))"
  using assms by (simp add: readDirectory_def getActiveScope_def getScopes_def split: option.splits)

text \<open>
  C1. With an active scope (a non-empty name that is a key of the collection) whose folder
  list is \<open>F\<close>, the visibility decision for a relative path \<open>P\<close> is true exactly when,
  both sides being in canonical separator form, \<open>P\<close> equals some folder of \<open>F\<close>, or \<open>P\<close>
  begins with a folder of \<open>F\<close> followed by the separator, or a folder of \<open>F\<close> begins with
  \<open>P\<close> followed by the separator; for every other \<open>P\<close> it is false.
\<close>

theorem shouldShowEntry_active_iff:
  assumes "a \<noteq> []" and "map_of scps a = Some sc" and "folders sc = F"
  shows "shouldShowEntry P (Some a) scps \<longleftrightarrow>
           (\<exists>f \<in> set F. normalizeSep P = normalizeSep f
              \<or> prefix (normalizeSep f @ ''/'') (normalizeSep P)
              \<or> prefix (normalizeSep P @ ''/'') (normalizeSep f))"
  using assms by (simp add: shouldShowEntry_def scanFolders_iff)

theorem shouldShowEntry_active_iff_witness:
  "''Frontend'' \<noteq> [] \<and> map_of (scopes exampleManager) ''Frontend'' = Some frontendScope
     \<and> shouldShowEntry ''src/components/Header.js'' (Some ''Frontend'') (scopes exampleManager)
     \<and> shouldShowEntry ''src'' (Some ''Frontend'') (scopes exampleManager)
     \<and> \<not> shouldShowEntry ''src/api/auth.js'' (Some ''Frontend'') (scopes exampleManager)"
proof -
  have h1: "''Frontend'' \<noteq> []" by simp
  have h2: "map_of (scopes exampleManager) ''Frontend'' = Some frontendScope"
    by (simp add: exampleManager_def)
  have h3: "folders frontendScope = [''src/components'', ''src/pages'']"
    by (simp add: frontendScope_def)
  show ?thesis
    using h1 h2
      shouldShowEntry_active_iff [OF h1 h2 h3, of "''src/components/Header.js''"]
      shouldShowEntry_active_iff [OF h1 h2 h3, of "''src''"]
      shouldShowEntry_active_iff [OF h1 h2 h3, of "''src/api/auth.js''"]
    by (simp add: normalizeSep_def)
qed



section \<open>Properties of the directory enumerator\<close>

lemma lcp_append: "longest_common_prefix xs (xs @ ys) = xs"
  by (induction xs) auto

lemma path_relative_append: "path_relative root (root @ q) = q"
  by (simp add: path_relative_def lcp_append)

lemma gdr_stop: "m \<le> d \<Longrightarrow> getDirectoriesRecursive fs dirPath root m d = []"
  by (subst getDirectoriesRecursive.simps) simp

lemma gdr_unreadable:
  "readdir fs dirPath = None \<Longrightarrow> getDirectoriesRecursive fs dirPath root m d = []"
  by (subst getDirectoriesRecursive.simps) simp

lemma gdr_set_Some:
  "d < m \<Longrightarrow> readdir fs dirPath = Some items \<Longrightarrow>
     set (getDirectoriesRecursive fs dirPath root m d) =
       (\<Union>item \<in> {i \<in> set items.
                    isDirectory i \<and> \<not> prefix ''.'' (dname i) \<and> dname i \<noteq> ''node_modules''}.
          insert (path_relative root (path_join dirPath (dname item)))
            (set (getDirectoriesRecursive fs (path_join dirPath (dname item)) root m (d + 1))))"
  by (subst getDirectoriesRecursive.simps) (auto simp: Let_def)

lemma gdr_mem_iff:
  "p \<in> set (getDirectoriesRecursive fs dirPath root m d) \<longleftrightarrow>
     d < m \<and> (\<exists>items item. readdir fs dirPath = Some items \<and> item \<in> set items
        \<and> isDirectory item \<and> \<not> prefix ''.'' (dname item) \<and> dname item \<noteq> ''node_modules''
        \<and> (p = path_relative root (path_join dirPath (dname item))
           \<or> p \<in> set (getDirectoriesRecursive fs (path_join dirPath (dname item)) root m (d + 1))))"
proof (cases "d < m")
  case False
  then show ?thesis by (simp add: gdr_stop)
next
  case True
  show ?thesis
  proof (cases "readdir fs dirPath")
    case None
    then show ?thesis by (simp add: gdr_unreadable)
  next
    case (Some items)
    with True show ?thesis by (simp add: gdr_set_Some)
  qed
qed

text \<open>
  Every path in the output leads from the directory being read through at most
  \<open>maxDepth - currentDepth\<close> entries, none of which has an excluded name.
\<close>

lemma gdr_sound:
  "p \<in> set (getDirectoriesRecursive fs dirPath root m d) \<Longrightarrow>
     \<exists>r. p = path_relative root (dirPath @ r) \<and> r \<noteq> [] \<and> d + length r \<le> m
        \<and> (\<forall>c \<in> set r. \<not> excludedName c)"
proof (induction fs dirPath root m d arbitrary: p rule: getDirectoriesRecursive.induct)
  case (1 fs dirPath root m d)
  from "1.prems" obtain items item where lt: "d < m" and rd: "readdir fs dirPath = Some items"
      and it: "item \<in> set items"
      and ok: "isDirectory item \<and> \<not> prefix ''.'' (dname item) \<and> dname item \<noteq> ''node_modules''"
      and p: "p = path_relative root (path_join dirPath (dname item))
            \<or> p \<in> set (getDirectoriesRecursive fs (path_join dirPath (dname item)) root m (d + 1))"
    by (subst (asm) gdr_mem_iff) blast
  from lt have nle: "\<not> m \<le> d" by simp
  from p show ?case
  proof
    assume "p = path_relative root (path_join dirPath (dname item))"
    with ok lt show ?thesis
      by (intro exI[of _ "[dname item]"]) (auto simp: path_join_def excludedName_def)
  next
    assume "p \<in> set (getDirectoriesRecursive fs (path_join dirPath (dname item)) root m (d + 1))"
    from "1.IH"[OF nle rd it ok refl refl this]
    obtain r where r: "p = path_relative root (path_join dirPath (dname item) @ r)" "r \<noteq> []"
        "d + 1 + length r \<le> m" "\<forall>c \<in> set r. \<not> excludedName c"
      by auto
    with ok show ?thesis
      by (intro exI[of _ "dname item # r"]) (auto simp: path_join_def excludedName_def)
  qed
qed

lemma gdr_sound_root:
  assumes "p \<in> set (getDirectoriesRecursive fs root root m 0)"
  shows "p \<noteq> [] \<and> length p \<le> m \<and> (\<forall>c \<in> set p. \<not> excludedName c)"
proof -
  from gdr_sound [OF assms] obtain r where "p = path_relative root (root @ r)" "r \<noteq> []"
      "0 + length r \<le> m" "\<forall>c \<in> set r. \<not> excludedName c"
    by blast
  then show ?thesis by (simp add: path_relative_append)
qed

lemma fsLookup_append:
  "fsLookup fs (p @ q) = (case fsLookup fs p of None \<Rightarrow> None | Some nd \<Rightarrow> fsLookup nd q)"
  by (induction fs p rule: fsLookup.induct) (auto split: option.splits)

lemma fsLookup_Cons_Some:
  "fsLookup nd (c # cs) = Some nd' \<Longrightarrow>
     \<exists>es ndc. nd = DirNode es \<and> map_of es c = Some ndc \<and> fsLookup ndc cs = Some nd'"
  by (cases nd) (auto split: option.splits)

text \<open>
  Every directory reached from the directory being read through at most
  \<open>maxDepth - currentDepth\<close> entries without an excluded name is in the output.
\<close>

lemma gdr_complete:
  "r \<noteq> [] \<Longrightarrow> d + length r \<le> m \<Longrightarrow> \<forall>c \<in> set r. \<not> excludedName c \<Longrightarrow>
   fsLookup fs (dirPath @ r) = Some nd \<Longrightarrow> isDir nd \<Longrightarrow>
   path_relative root (dirPath @ r) \<in> set (getDirectoriesRecursive fs dirPath root m d)"
proof (induction r arbitrary: dirPath d)
  case Nil
  then show ?case by simp
next
  case (Cons c r)
  from Cons.prems(4) obtain n0 where n0: "fsLookup fs dirPath = Some n0"
      and l0: "fsLookup n0 (c # r) = Some nd"
    by (auto simp: fsLookup_append split: option.splits)
  from fsLookup_Cons_Some[OF l0] obtain es ndc where es: "n0 = DirNode es"
      and mc: "map_of es c = Some ndc" and lr: "fsLookup ndc r = Some nd"
    by blast
  have dirc: "isDir ndc"
  proof (cases r)
    case Nil
    with lr Cons.prems(5) show ?thesis by simp
  next
    case (Cons c' r')
    with lr show ?thesis by (cases ndc) (auto simp: isDir_def)
  qed
  let ?item = "\<lparr>dname = c, isDirectory = isDir ndc\<rparr>"
  from n0 es have rd: "readdir fs dirPath
      = Some (map (\<lambda>(n, nd). \<lparr>dname = n, isDirectory = isDir nd\<rparr>) es)"
    by (simp add: readdir_def)
  from mc have "(c, ndc) \<in> set es" by (rule map_of_SomeD)
  then have it: "?item \<in> set (map (\<lambda>(n, nd). \<lparr>dname = n, isDirectory = isDir nd\<rparr>) es)"
    by force
  from Cons.prems(3) have okc: "\<not> prefix ''.'' c \<and> c \<noteq> ''node_modules''"
    by (simp add: excludedName_def)
  from Cons.prems(2) have lt: "d < m" by simp
  show ?case
  proof (cases r)
    case Nil
    with rd it okc lt dirc show ?thesis
      by (subst gdr_mem_iff) (force simp: path_join_def)
  next
    case (Cons c' r')
    then have rne: "r \<noteq> []" by simp
    have l2: "fsLookup fs ((dirPath @ [c]) @ r) = Some nd"
      using Cons.prems(4) by simp
    from Cons.prems(2) have d2: "(d + 1) + length r \<le> m" by simp
    from Cons.prems(3) have ok2: "\<forall>c \<in> set r. \<not> excludedName c" by simp
    from Cons.IH[OF rne d2 ok2 l2 Cons.prems(5)]
    have "path_relative root ((dirPath @ [c]) @ r)
            \<in> set (getDirectoriesRecursive fs (dirPath @ [c]) root m (d + 1))" .
    with rd it okc lt dirc show ?thesis
      by (subst gdr_mem_iff) (force simp: path_join_def)
  qed
qed

lemma gdr_complete_root:
  assumes "p \<noteq> []" and "length p \<le> m" and "\<forall>c \<in> set p. \<not> excludedName c"
    and "fsLookup fs (root @ p) = Some nd" and "isDir nd"
  shows "p \<in> set (getDirectoriesRecursive fs root root m 0)"
  using gdr_complete [of p 0 m fs root nd root] assms by (simp add: path_relative_append)

lemma exampleTree_enumerated:
  "getDirectoriesRecursive exampleTree [''ws''] [''ws''] 3 0 =
     [[''locked''], [''src''], [''src'', ''components''], [''src'', ''components'', ''ui''],
      [''src'', ''api'']]"
  by (simp add: getDirectoriesRecursive.simps exampleTree_def readdir_def isDir_def
      path_join_def path_relative_def)

text \<open>
  C4 as stated fails: a directory three levels below the root whose name starts with a dot is
  not in the output.
\<close>

theorem depth3_hidden_directory_counterexample:
  "fsLookup exampleTree ([''ws''] @ [''src'', ''components'', ''.cache'']) = Some (DirNode [])
   \<and> isDir (DirNode [])
   \<and> [''src'', ''components'', ''.cache'']
        \<notin> set (getDirectoriesRecursive exampleTree [''ws''] [''ws''] 3 0)"
  by (simp add: exampleTree_enumerated) (simp add: exampleTree_def isDir_def)

text \<open>
  C4, amended. With \<open>maxDepth = 3\<close>, every directory nested exactly three levels below the
  root on a path none of whose entry names starts with a dot or is \<open>node_modules\<close> is in the
  output (its ancestors are then directories that can be read); every path in the output is
  nested between one and three levels below the root, so no directory nested four or more
  levels appears; and the recursion returns nothing once \<open>currentDepth \<ge> maxDepth\<close>.
\<close>

theorem getDirectoriesRecursive_depth_bound:
  "(\<forall>p. length p = 3 \<and> (\<forall>c \<in> set p. \<not> excludedName c)
         \<and> (\<exists>nd. fsLookup fs (root @ p) = Some nd \<and> isDir nd)
       \<longrightarrow> p \<in> set (getDirectoriesRecursive fs root root 3 0))
   \<and> (\<forall>p \<in> set (getDirectoriesRecursive fs root root 3 0). 1 \<le> length p \<and> length p \<le> 3)
   \<and> (\<forall>dirPath maxDepth currentDepth. maxDepth \<le> currentDepth
       \<longrightarrow> getDirectoriesRecursive fs dirPath root maxDepth currentDepth = [])"
proof (intro conjI allI impI ballI)
  fix p
  assume "length p = 3 \<and> (\<forall>c \<in> set p. \<not> excludedName c)
         \<and> (\<exists>nd. fsLookup fs (root @ p) = Some nd \<and> isDir nd)"
  then obtain nd where "length p = 3" "\<forall>c \<in> set p. \<not> excludedName c"
      "fsLookup fs (root @ p) = Some nd" "isDir nd"
    by blast
  then show "p \<in> set (getDirectoriesRecursive fs root root 3 0)"
    by (intro gdr_complete_root [where nd = nd]) auto
next
  fix p
  assume "p \<in> set (getDirectoriesRecursive fs root root 3 0)"
  from gdr_sound_root [OF this] show "1 \<le> length p" and "length p \<le> 3"
    by (auto simp: Suc_le_eq)
next
  fix dirPath :: path and maxDepth currentDepth :: nat
  assume "maxDepth \<le> currentDepth"
  then show "getDirectoriesRecursive fs dirPath root maxDepth currentDepth = []"
    by (rule gdr_stop)
qed

theorem getDirectoriesRecursive_depth_bound_witness:
  "[''src'', ''components'', ''ui'']
      \<in> set (getDirectoriesRecursive exampleTree [''ws''] [''ws''] 3 0)
   \<and> [''src'', ''components'', ''ui'', ''deep'']
      \<notin> set (getDirectoriesRecursive exampleTree [''ws''] [''ws''] 3 0)
   \<and> getDirectoriesRecursive exampleTree [''ws'', ''src''] [''ws''] 3 3 = []"
proof -
  note t = getDirectoriesRecursive_depth_bound [of exampleTree "[''ws'']"]
  have lk: "fsLookup exampleTree ([''ws''] @ [''src'', ''components'', ''ui''])
              = Some (DirNode [(''deep'', DirNode [])])"
    by (simp add: exampleTree_def)
  have hyp: "length [''src'', ''components'', ''ui''] = 3
       \<and> (\<forall>c \<in> set [''src'', ''components'', ''ui'']. \<not> excludedName c)
       \<and> (\<exists>nd. fsLookup exampleTree ([''ws''] @ [''src'', ''components'', ''ui'']) = Some nd
              \<and> isDir nd)"
    using lk by (simp add: excludedName_def isDir_def)
  from t hyp have a: "[''src'', ''components'', ''ui'']
      \<in> set (getDirectoriesRecursive exampleTree [''ws''] [''ws''] 3 0)"
    by blast
  from t have "\<forall>p \<in> set (getDirectoriesRecursive exampleTree [''ws''] [''ws''] 3 0). length p \<le> 3"
    by blast
  then have b: "[''src'', ''components'', ''ui'', ''deep'']
      \<notin> set (getDirectoriesRecursive exampleTree [''ws''] [''ws''] 3 0)"
    by auto
  from t have c: "getDirectoriesRecursive exampleTree [''ws'', ''src''] [''ws''] 3 3 = []"
    by simp
  from a b c show ?thesis by simp
qed

section \<open>Properties of the listings\<close>

lemma set_insertBy: "set (insertBy cmp x xs) = insert x (set xs)"
  by (induction xs) auto

lemma set_sortBy: "set (sortBy cmp xs) = set xs"
  by (induction xs) (auto simp: sortBy_def set_insertBy)

lemma set_listChildren:
  "set (listChildren localeCompare fs dir) =
     (case readdir fs dir of
        None \<Rightarrow> {}
      | Some entries \<Rightarrow>
          (\<lambda>entry. \<lparr>name = dname entry, uri = path_join dir (dname entry),
                      ftype = (if isDirectory entry then FileType_Directory else FileType_File)\<rparr>)
            ` {entry \<in> set entries. \<not> excludedName (dname entry)})"
  by (auto simp: listChildren_def set_sortBy excludedName_def split: option.splits)

lemma listChildren_unreadable:
  "readdir fs dir = None \<Longrightarrow> listChildren localeCompare fs dir = []"
  by (simp add: listChildren_def)

lemma listChildren_names:
  "e \<in> set (listChildren localeCompare fs dir) \<Longrightarrow> \<not> excludedName (name e)"
  by (auto simp: set_listChildren split: option.splits)

lemma getChildren_element:
  "getChildren sep localeCompare fs workspaceFolders m (Some el) = [] \<or>
   getChildren sep localeCompare fs workspaceFolders m (Some el)
     = listChildren localeCompare fs (uri el)"
  by (simp add: getChildren_def split: option.splits)

lemma exampleTree_ws_entries:
  "readdir exampleTree [''ws''] =
     Some [\<lparr>dname = ''.git'', isDirectory = True\<rparr>, \<lparr>dname = ''node_modules'', isDirectory = True\<rparr>,
           \<lparr>dname = ''locked'', isDirectory = True\<rparr>, \<lparr>dname = ''src'', isDirectory = True\<rparr>,
           \<lparr>dname = ''README.md'', isDirectory = False\<rparr>]"
  by (simp add: exampleTree_def readdir_def isDir_def)

lemma idleManager_readDirectory:
  "readDirectory CHR ''/'' exampleTree [[''ws'']] idleManager [''ws''] =
     Inr [(''.git'', FileType_Directory), (''node_modules'', FileType_Directory),
          (''locked'', FileType_Directory), (''src'', FileType_Directory),
          (''README.md'', FileType_File)]"
  by (simp add: readDirectory_def exampleTree_ws_entries getActiveScope_def idleManager_def
      shouldShowEntry_def)

lemma exampleTree_listChildren:
  "map childEntry (listChildren compareCodeUnits exampleTree [''ws'']) =
     [(''locked'', FileType_Directory), (''src'', FileType_Directory),
      (''README.md'', FileType_File)]"
  by (simp add: listChildren_def exampleTree_ws_entries sortBy_def compareChildren_def
      childEntry_def)

text \<open>
  C2 as stated fails: with no active scope the overlay lists the hidden entries of the
  directory, which the child listing of the file tree leaves out.
\<close>

theorem readDirectory_passthrough_counterexample:
  "activeScope idleManager = None
   \<and> readDirectory CHR ''/'' exampleTree [[''ws'']] idleManager [''ws''] =
       Inr [(''.git'', FileType_Directory), (''node_modules'', FileType_Directory),
            (''locked'', FileType_Directory), (''src'', FileType_Directory),
            (''README.md'', FileType_File)]
   \<and> map childEntry (listChildren compareCodeUnits exampleTree [''ws'']) =
       [(''locked'', FileType_Directory), (''src'', FileType_Directory),
        (''README.md'', FileType_File)]
   \<and> set (projr (readDirectory CHR ''/'' exampleTree [[''ws'']] idleManager [''ws'']))
       \<noteq> set (map childEntry (listChildren compareCodeUnits exampleTree [''ws'']))"
proof -
  have "(''.git'', FileType_Directory)
          \<in> set (projr (readDirectory CHR ''/'' exampleTree [[''ws'']] idleManager [''ws'']))"
    by (simp add: idleManager_readDirectory)
  moreover have "(''.git'', FileType_Directory)
          \<notin> set (map childEntry (listChildren compareCodeUnits exampleTree [''ws'']))"
    by (simp add: exampleTree_listChildren)
  ultimately have "set (projr (readDirectory CHR ''/'' exampleTree [[''ws'']] idleManager [''ws'']))
       \<noteq> set (map childEntry (listChildren compareCodeUnits exampleTree [''ws'']))"
    by blast
  moreover have "activeScope idleManager = None"
    by (simp add: idleManager_def)
  ultimately show ?thesis
    by (simp only: idleManager_readDirectory exampleTree_listChildren simp_thms)
qed

text \<open>
  C2, amended. With no active scope the visibility filter is true for every path and the
  overlay returns every entry of the directory as read from disk, in order, hidden and
  \<open>node_modules\<close> entries included; the entries of the file tree's child listing are
  exactly those overlay entries whose name neither starts with a dot nor is
  \<open>node_modules\<close>.
\<close>

theorem no_active_scope_passes_directory_through:
  assumes "falsy (activeScope m)"
  shows "shouldShowEntry P (getActiveScope m) (getScopes m)
       \<and> readDirectory sep fs workspaceFolders m dir =
           (case readdir fs dir of
              None \<Rightarrow> Inl (FileNotFound dir)
            | Some entries \<Rightarrow>
                Inr (map (\<lambda>entry. (dname entry,
                       if isDirectory entry then FileType_Directory else FileType_File)) entries))
       \<and> (\<forall>out. readDirectory sep fs workspaceFolders m dir = Inr out \<longrightarrow>
             set (map childEntry (listChildren localeCompare fs dir))
               = {entry \<in> set out. \<not> excludedName (fst entry)})"
proof -
  have all: "\<And>p. shouldShowEntry p (activeScope m) (scopes m)"
    using assms by (rule shouldShowEntry_falsy)
  note rd = readDirectory_show_all [OF all, of sep fs workspaceFolders dir]
  have "set (map childEntry (listChildren localeCompare fs dir))
               = {entry \<in> set out. \<not> excludedName (fst entry)}"
    if "readDirectory sep fs workspaceFolders m dir = Inr out" for out
  proof (cases "readdir fs dir")
    case None
    with that rd show ?thesis by simp
  next
    case (Some entries)
    with that rd have out: "out = map (\<lambda>entry. (dname entry,
                       if isDirectory entry then FileType_Directory else FileType_File)) entries"
      by simp
    show ?thesis
      unfolding out using Some
      by (fastforce simp: set_listChildren childEntry_def image_iff)
  qed
  with all rd show ?thesis
    by (simp add: getActiveScope_def getScopes_def)
qed

theorem no_active_scope_passes_directory_through_witness:
  "falsy (activeScope idleManager)
   \<and> shouldShowEntry ''src/api/auth.js'' (getActiveScope idleManager) (getScopes idleManager)
   \<and> readDirectory CHR ''/'' exampleTree [[''ws'']] idleManager [''ws''] =
       Inr [(''.git'', FileType_Directory), (''node_modules'', FileType_Directory),
            (''locked'', FileType_Directory), (''src'', FileType_Directory),
            (''README.md'', FileType_File)]
   \<and> set (map childEntry (listChildren compareCodeUnits exampleTree [''ws''])) =
       set [(''locked'', FileType_Directory), (''src'', FileType_Directory),
            (''README.md'', FileType_File)]"
proof -
  let ?L = "[(''.git'', FileType_Directory), (''node_modules'', FileType_Directory),
            (''locked'', FileType_Directory), (''src'', FileType_Directory),
            (''README.md'', FileType_File)]"
  have h: "falsy (activeScope idleManager)"
    by (simp add: falsy_def idleManager_def)
  note t = no_active_scope_passes_directory_through
    [OF h, of "''src/api/auth.js''" "CHR ''/''" exampleTree "[[''ws'']]" "[''ws'']" compareCodeUnits]
  from t have t1: "shouldShowEntry ''src/api/auth.js'' (getActiveScope idleManager)
      (getScopes idleManager)"
    by (rule conjunct1)
  from t have t2: "readDirectory CHR ''/'' exampleTree [[''ws'']] idleManager [''ws''] =
           (case readdir exampleTree [''ws''] of
              None \<Rightarrow> Inl (FileNotFound [''ws''])
            | Some entries \<Rightarrow>
                Inr (map (\<lambda>entry. (dname entry,
                       if isDirectory entry then FileType_Directory else FileType_File)) entries))"
    by (rule conjunct1 [OF conjunct2])
  from t have t3: "\<forall>out. readDirectory CHR ''/'' exampleTree [[''ws'']] idleManager [''ws''] = Inr out
       \<longrightarrow> set (map childEntry (listChildren compareCodeUnits exampleTree [''ws'']))
               = {entry \<in> set out. \<not> excludedName (fst entry)}"
    by (rule conjunct2 [OF conjunct2])
  have rd: "readDirectory CHR ''/'' exampleTree [[''ws'']] idleManager [''ws''] = Inr ?L"
    unfolding t2 by (simp add: exampleTree_ws_entries)
  from t3 rd have "set (map childEntry (listChildren compareCodeUnits exampleTree [''ws'']))
       = {entry \<in> set ?L. \<not> excludedName (fst entry)}"
    by blast
  also have "\<dots> = set (filter (\<lambda>entry. \<not> excludedName (fst entry)) ?L)"
    by (simp only: set_filter)
  also have "filter (\<lambda>entry. \<not> excludedName (fst entry)) ?L =
      [(''locked'', FileType_Directory), (''src'', FileType_Directory),
       (''README.md'', FileType_File)]"
    by (simp add: excludedName_def)
  finally show ?thesis using h t1 rd by simp
qed

text \<open>
  C3 as stated fails: the overlay lists \<open>.git\<close> and \<open>node_modules\<close> when no scope is
  active.
\<close>

theorem readDirectory_lists_hidden_counterexample:
  "excludedName ''.git'' \<and> excludedName ''node_modules''
   \<and> (''.git'', FileType_Directory)
        \<in> set (projr (readDirectory CHR ''/'' exampleTree [[''ws'']] idleManager [''ws'']))
   \<and> (''node_modules'', FileType_Directory)
        \<in> set (projr (readDirectory CHR ''/'' exampleTree [[''ws'']] idleManager [''ws'']))"
  by (simp add: idleManager_readDirectory excludedName_def)

text \<open>
  C3, amended. For every scope state, no path produced by the recursive enumerator has a
  component that starts with a dot or is \<open>node_modules\<close>, and no entry of the scoped file
  tree's child listing has such a name. (The overlay applies the visibility filter only.)
\<close>

theorem excluded_names_never_listed:
  "(\<forall>p \<in> set (getDirectoriesRecursive fs root root maxDepth 0). \<forall>c \<in> set p. \<not> excludedName c)
   \<and> (\<forall>e \<in> set (getChildren sep localeCompare fs workspaceFolders m (Some el)).
         \<not> excludedName (name e))"
proof (intro conjI ballI)
  fix p c
  assume "p \<in> set (getDirectoriesRecursive fs root root maxDepth 0)" and "c \<in> set p"
  with gdr_sound_root show "\<not> excludedName c" by blast
next
  fix e
  assume e: "e \<in> set (getChildren sep localeCompare fs workspaceFolders m (Some el))"
  with getChildren_element [of sep localeCompare fs workspaceFolders m el]
  have "e \<in> set (listChildren localeCompare fs (uri el))" by auto
  then show "\<not> excludedName (name e)" by (rule listChildren_names)
qed

theorem excluded_names_never_listed_witness:
  "set (getDirectoriesRecursive exampleTree [''ws''] [''ws''] 3 0) \<noteq> {}
   \<and> [''.git''] \<notin> set (getDirectoriesRecursive exampleTree [''ws''] [''ws''] 3 0)
   \<and> set (getChildren CHR ''/'' compareCodeUnits exampleTree [[''ws'']] exampleManager
             (Some \<lparr>name = ''components'', uri = [''ws'', ''src'', ''components''],
                     ftype = FileType_Directory\<rparr>)) \<noteq> {}
   \<and> ''.cache'' \<notin> name ` set (getChildren CHR ''/'' compareCodeUnits exampleTree [[''ws'']]
             exampleManager
             (Some \<lparr>name = ''components'', uri = [''ws'', ''src'', ''components''],
                     ftype = FileType_Directory\<rparr>))"
proof -
  let ?el = "\<lparr>name = ''components'', uri = [''ws'', ''src'', ''components''],
               ftype = FileType_Directory\<rparr>"
  note t = excluded_names_never_listed [of exampleTree "[''ws'']" 3 "CHR ''/''" compareCodeUnits
      "[[''ws'']]" exampleManager ?el]
  have ex: "excludedName ''.git''" "excludedName ''.cache''"
    by (simp_all add: excludedName_def)
  have a: "set (getDirectoriesRecursive exampleTree [''ws''] [''ws''] 3 0) \<noteq> {}"
    by (simp add: exampleTree_enumerated)
  from t ex have b: "[''.git''] \<notin> set (getDirectoriesRecursive exampleTree [''ws''] [''ws''] 3 0)"
    by fastforce
  have c: "set (getChildren CHR ''/'' compareCodeUnits exampleTree [[''ws'']] exampleManager
             (Some ?el)) \<noteq> {}"
    by (simp add: getChildren_def getActiveScope_def getScopes_def exampleManager_def
        listChildren_def exampleTree_def readdir_def isDir_def sortBy_def)
  from t ex have d: "''.cache'' \<notin> name ` set (getChildren CHR ''/'' compareCodeUnits exampleTree
             [[''ws'']] exampleManager (Some ?el))"
    by fastforce
  from a b c d show ?thesis by simp
qed

lemma activeManager_locked:
  "getChildren CHR ''/'' compareCodeUnits exampleTree [[''ws'']] exampleManager
     (Some \<lparr>name = ''locked'', uri = [''ws'', ''locked''], ftype = FileType_Directory\<rparr>) = []"
  by (simp add: getChildren_def getActiveScope_def getScopes_def exampleManager_def
      listChildren_def exampleTree_def readdir_def)

text \<open>
  C6 as stated fails for the scoped file tree: when the directory of a tree element cannot
  be read, its child listing is the empty list and no error reaches the caller.
\<close>

theorem getChildren_unreadable_counterexample:
  "readdir exampleTree [''ws'', ''locked''] = None
   \<and> getChildren CHR ''/'' compareCodeUnits exampleTree [[''ws'']] exampleManager
       (Some \<lparr>name = ''locked'', uri = [''ws'', ''locked''], ftype = FileType_Directory\<rparr>) = []"
  by (simp add: activeManager_locked) (simp add: exampleTree_def readdir_def)

text \<open>
  C6, amended. When the requested directory cannot be read, the overlay's
  \<open>readDirectory\<close> reports the failure to its caller as a \<open>FileNotFound\<close> error, while
  the scoped file tree's child listing returns the empty list; the recursive enumerator
  also returns the empty list for a directory it cannot read, so that subtree contributes
  nothing and the enumeration as a whole still returns its result.
\<close>

theorem unreadable_directory_handling:
  assumes "readdir fs dir = None"
  shows "readDirectory sep fs workspaceFolders m dir = Inl (FileNotFound dir)
       \<and> (uri el = dir \<longrightarrow> getChildren sep localeCompare fs workspaceFolders m (Some el) = [])
       \<and> getDirectoriesRecursive fs dir root maxDepth currentDepth = []"
proof -
  have "readDirectory sep fs workspaceFolders m dir = Inl (FileNotFound dir)"
    using assms by (simp add: readDirectory_def)
  moreover have "getChildren sep localeCompare fs workspaceFolders m (Some el) = []"
    if "uri el = dir"
    using getChildren_element [of sep localeCompare fs workspaceFolders m el] that assms
    by (auto simp: listChildren_unreadable)
  moreover have "getDirectoriesRecursive fs dir root maxDepth currentDepth = []"
    using assms by (rule gdr_unreadable)
  ultimately show ?thesis by simp
qed

theorem unreadable_directory_handling_witness:
  "readdir exampleTree [''ws'', ''locked''] = None
   \<and> readDirectory CHR ''/'' exampleTree [[''ws'']] exampleManager [''ws'', ''locked'']
       = Inl (FileNotFound [''ws'', ''locked''])
   \<and> getChildren CHR ''/'' compareCodeUnits exampleTree [[''ws'']] exampleManager
       (Some \<lparr>name = ''locked'', uri = [''ws'', ''locked''], ftype = FileType_Directory\<rparr>) = []
   \<and> getDirectoriesRecursive exampleTree [''ws'', ''locked''] [''ws''] 3 1 = []
   \<and> [''locked''] \<in> set (getDirectoriesRecursive exampleTree [''ws''] [''ws''] 3 0)
   \<and> [''src''] \<in> set (getDirectoriesRecursive exampleTree [''ws''] [''ws''] 3 0)"
proof -
  have h: "readdir exampleTree [''ws'', ''locked''] = None"
    by (simp add: exampleTree_def readdir_def)
  note t = unreadable_directory_handling [OF h, of "CHR ''/''" "[[''ws'']]" exampleManager
      "\<lparr>name = ''locked'', uri = [''ws'', ''locked''], ftype = FileType_Directory\<rparr>"
      compareCodeUnits "[''ws'']" 3 1]
  from h t show ?thesis by (simp add: exampleTree_enumerated)
qed

section \<open>Properties of the scope store\<close>


lemma saveScopes_memory:
  "scopes (snd (saveScopes m r)) = scopes m" "activeScope (snd (saveScopes m r)) = activeScope m"
  by (cases r; simp add: saveScopes_def)+

lemma fire_memory: "scopes (fire m) = scopes m" "activeScope (fire m) = activeScope m"
  by (simp_all add: fire_def)

lemma commit_fire_memory:
  "scopes (snd (case saveScopes m r of
      (False, m') \<Rightarrow> (Failed SaveFailed, m') | (True, m') \<Rightarrow> (Done, fire m'))) = scopes m"
  "activeScope (snd (case saveScopes m r of
      (False, m') \<Rightarrow> (Failed SaveFailed, m') | (True, m') \<Rightarrow> (Done, fire m'))) = activeScope m"
  by (cases r; simp add: saveScopes_def fire_def)+

lemma commit_memory:
  "scopes (snd (case saveScopes m r of
      (False, m') \<Rightarrow> (Failed SaveFailed, m') | (True, m') \<Rightarrow> (Done, m'))) = scopes m"
  "activeScope (snd (case saveScopes m r of
      (False, m') \<Rightarrow> (Failed SaveFailed, m') | (True, m') \<Rightarrow> (Done, m'))) = activeScope m"
  by (cases r; simp add: saveScopes_def)+

text \<open>
  The commands that fire end with the same steps: save, then fire. The event is recorded
  after the two configuration updates, and not at all when an update fails.
\<close>

lemma commit_fire_trace:
  "trace (snd (case saveScopes m r of
      (False, m') \<Rightarrow> (Failed SaveFailed, m') | (True, m') \<Rightarrow> (Done, fire m')))
   = trace m @ (case r of SaveOk \<Rightarrow> [SavedScopes, SavedActiveScope, ScopeChanged]
                | ActiveScopeUpdateFails \<Rightarrow> [SavedScopes]
                | ScopesUpdateFails \<Rightarrow> [])"
  by (cases r; simp add: saveScopes_def fire_def)

lemma commit_fire_Done:
  "fst (case saveScopes m r of
      (False, m') \<Rightarrow> (Failed SaveFailed, m') | (True, m') \<Rightarrow> (Done, fire m')) = Done
   \<longleftrightarrow> r = SaveOk"
  by (cases r; simp add: saveScopes_def)

lemma setActiveScope_trace:
  "map_of (scopes m) n \<noteq> None \<Longrightarrow>
     trace (snd (setActiveScope m n r))
       = trace m @ (case r of SaveOk \<Rightarrow> [SavedScopes, SavedActiveScope, ScopeChanged]
                    | ActiveScopeUpdateFails \<Rightarrow> [SavedScopes]
                    | ScopesUpdateFails \<Rightarrow> [])"
  by (auto simp: setActiveScope_def commit_fire_trace)

lemma editScopeDescription_trace:
  "trace (snd (editScopeDescription m n sc (Some descr) r))
     = trace m @ (case r of SaveOk \<Rightarrow> [SavedScopes, SavedActiveScope]
                  | ActiveScopeUpdateFails \<Rightarrow> [SavedScopes]
                  | ScopesUpdateFails \<Rightarrow> [])"
  by (cases r; simp add: editScopeDescription_def saveScopes_def)

lemma setActiveScope_memory:
  "scopes (snd (setActiveScope m n r)) = scopes m"
  "activeScope (snd (setActiveScope m n r))
     = (if map_of (scopes m) n = None then activeScope m else Some n)"
  by (auto simp: setActiveScope_def commit_fire_memory split: option.splits)

lemma clearActiveScope_memory:
  "scopes (snd (clearActiveScope m r)) = scopes m"
  "activeScope (snd (clearActiveScope m r)) = (if falsy (activeScope m) then activeScope m else None)"
  by (auto simp: clearActiveScope_def commit_fire_memory)



lemma trim_Nil: "trim [] = []"
  by (simp add: trim_def)






lemma commit_fire_not_NoOp:
  "fst (case saveScopes m r of
      (False, m') \<Rightarrow> (Failed SaveFailed, m') | (True, m') \<Rightarrow> (Done, fire m')) \<noteq> NoOp"
  by (cases r; simp add: saveScopes_def)

lemma deleteScope_cases:
  obtains (noop) "deleteScope m scopeName picked confirmation r = (NoOp, m)"
  | (deleted) n where "(if falsy scopeName then picked else scopeName) = Some n"
      "n \<noteq> []" "map_of (scopes m) n \<noteq> None"
      "deleteScope m scopeName picked confirmation r =
         (case saveScopes
                 (if activeScope m = Some n
                  then m\<lparr>scopes := AList.delete n (scopes m), activeScope := None\<rparr>
                  else m\<lparr>scopes := AList.delete n (scopes m)\<rparr>) r of
            (False, m') \<Rightarrow> (Failed SaveFailed, m')
          | (True, m') \<Rightarrow> (Done, fire m'))"
proof (cases "falsy scopeName \<and> scopes m = []")
  case True
  then have "deleteScope m scopeName picked confirmation r = (NoOp, m)"
    by (simp add: deleteScope_def)
  then show ?thesis by (rule noop)
next
  case ne: False
  show ?thesis
  proof (cases "if falsy scopeName then picked else scopeName")
    case None
    have "deleteScope m scopeName picked confirmation r = (NoOp, m)"
      unfolding deleteScope_def by (simp only: ne if_False None option.case)
    then show ?thesis by (rule noop)
  next
    case (Some n)
    have step: "deleteScope m scopeName picked confirmation r =
       (if n = [] \<or> map_of (scopes m) n = None then (NoOp, m)
        else if confirmation \<noteq> Some ''Delete'' then (NoOp, m)
        else (let m1 = m\<lparr>scopes := AList.delete n (scopes m)\<rparr>;
                  m2 = (if activeScope m1 = Some n then m1\<lparr>activeScope := None\<rparr> else m1)
              in case saveScopes m2 r of
                   (False, m') \<Rightarrow> (Failed SaveFailed, m')
                 | (True, m') \<Rightarrow> (Done, fire m')))"
      unfolding deleteScope_def by (simp only: ne if_False Some option.case)
    show ?thesis
    proof (cases "n = [] \<or> map_of (scopes m) n = None")
      case True
      have "deleteScope m scopeName picked confirmation r = (NoOp, m)"
        unfolding step by (simp only: True if_True)
      then show ?thesis by (rule noop)
    next
      case present: False
      show ?thesis
      proof (cases "confirmation \<noteq> Some ''Delete''")
        case True
        have "deleteScope m scopeName picked confirmation r = (NoOp, m)"
          unfolding step using True by (simp only: present if_False) simp
        then show ?thesis by (rule noop)
      next
        case False
        have "deleteScope m scopeName picked confirmation r =
           (let m1 = m\<lparr>scopes := AList.delete n (scopes m)\<rparr>;
                  m2 = (if activeScope m1 = Some n then m1\<lparr>activeScope := None\<rparr> else m1)
              in case saveScopes m2 r of
                   (False, m') \<Rightarrow> (Failed SaveFailed, m')
                 | (True, m') \<Rightarrow> (Done, fire m'))"
          unfolding step by (simp only: present False if_False)
        then have "deleteScope m scopeName picked confirmation r =
           (case saveScopes
                 (if activeScope m = Some n
                  then m\<lparr>scopes := AList.delete n (scopes m), activeScope := None\<rparr>
                  else m\<lparr>scopes := AList.delete n (scopes m)\<rparr>) r of
              (False, m') \<Rightarrow> (Failed SaveFailed, m')
            | (True, m') \<Rightarrow> (Done, fire m'))"
          by (simp add: Let_def)
        with Some present show ?thesis by (intro deleted [of n]) simp_all
      qed
    qed
  qed
qed












text \<open>
  The commands keep every name of the collection valid: a name enters the collection only
  through an input box that refuses a value whose trimmed form is empty.
\<close>

lemma validNames_iff: "validNames m \<longleftrightarrow> (\<forall>n \<in> fst ` set (scopes m). trim n \<noteq> [])"
  by (auto simp: validNames_def list_all_iff)

lemma validNames_present:
  "validNames m \<Longrightarrow> map_of (scopes m) n \<noteq> None \<Longrightarrow> trim n \<noteq> []"
  by (auto simp: validNames_iff dest!: map_of_SomeD intro: rev_image_eqI)

lemma validNames_memory: "scopes m' = scopes m \<Longrightarrow> validNames m' = validNames m"
  by (simp add: validNames_def)

lemma validNames_update:
  "validNames m \<Longrightarrow> trim n \<noteq> [] \<Longrightarrow> scopes m' = AList.update n sc (scopes m) \<Longrightarrow> validNames m'"
  by (auto simp: validNames_iff dom_update)

lemma validNames_delete:
  assumes "validNames m" and "scopes m' = AList.delete n (scopes m)"
  shows "validNames m'"
  unfolding validNames_iff
proof
  fix x
  assume "x \<in> fst ` set (scopes m')"
  with assms(2) dom_delete_subset [of n "scopes m"] have "x \<in> fst ` set (scopes m)"
    by auto
  with assms(1) show "trim x \<noteq> []" by (auto simp: validNames_iff)
qed

lemma createScope_validNames:
  assumes "validNames m"
  shows "validNames (snd (createScope m typed selection now activate r1 r2))"
proof (cases "\<exists>v fs. typed = Some v \<and> validateCreate (scopes m) v = None \<and> v \<noteq> []
                 \<and> selection = Some fs \<and> fs \<noteq> []")
  case False
  then have "snd (createScope m typed selection now activate r1 r2) = m"
    by (auto simp: createScope_def split: option.splits)
  with assms show ?thesis by simp
next
  case True
  then obtain v fs where tv: "typed = Some v" "validateCreate (scopes m) v = None" "v \<noteq> []"
      "selection = Some fs" "fs \<noteq> []"
    by blast
  from tv(2) have tr: "trim v \<noteq> []" by (auto simp: validateCreate_def split: if_splits)
  let ?m1 = "m\<lparr>scopes := AList.update v \<lparr>folders = fs, created = now, description = []\<rparr> (scopes m)\<rparr>"
  obtain ok m2 where sv: "saveScopes ?m1 r1 = (ok, m2)" by (cases "saveScopes ?m1 r1")
  with saveScopes_memory [of ?m1 r1] have mem: "scopes m2 = scopes ?m1" by simp
  have "snd (createScope m typed selection now activate r1 r2) = m2
      \<or> snd (createScope m typed selection now activate r1 r2) = snd (setActiveScope m2 v r2)"
    using tv sv by (cases ok) (auto simp: createScope_def)
  then have "scopes (snd (createScope m typed selection now activate r1 r2))
               = AList.update v \<lparr>folders = fs, created = now, description = []\<rparr> (scopes m)"
    using mem by (auto simp: setActiveScope_memory)
  with assms tr show ?thesis by (rule validNames_update)
qed

lemma editScope_validNames:
  assumes "validNames m"
  shows "validNames (snd (editScope m scopeName picked action r))"
proof (cases "\<exists>n sc a. map_of (scopes m) n = Some sc \<and> editScope m scopeName picked action r =
                 (case a of EditName typed \<Rightarrow> editScopeName m n sc typed r
                  | EditFolders selection \<Rightarrow> editScopeFolders m n sc selection r
                  | EditDescription typed \<Rightarrow> editScopeDescription m n sc typed r)")
  case False
  then have "snd (editScope m scopeName picked action r) = m"
    by (fastforce simp: editScope_def split: option.splits if_splits)
  with assms show ?thesis by simp
next
  case True
  then obtain n sc a where pres: "map_of (scopes m) n = Some sc"
    and eq: "editScope m scopeName picked action r =
                 (case a of EditName typed \<Rightarrow> editScopeName m n sc typed r
                  | EditFolders selection \<Rightarrow> editScopeFolders m n sc selection r
                  | EditDescription typed \<Rightarrow> editScopeDescription m n sc typed r)"
    by blast
  from assms pres have trn: "trim n \<noteq> []" by (simp add: validNames_present)
  show ?thesis
  proof (cases a)
    case (EditName typed)
    show ?thesis
    proof (cases "\<exists>newName. typed = Some newName
                    \<and> validateRename (scopes m) n newName = None
                    \<and> newName \<noteq> [] \<and> newName \<noteq> n")
      case False
      then have "snd (editScopeName m n sc typed r) = m"
        by (auto simp: editScopeName_def split: option.splits)
      with assms eq EditName show ?thesis by simp
    next
      case True
      then obtain newName where tv: "typed = Some newName"
          "validateRename (scopes m) n newName = None" "newName \<noteq> []" "newName \<noteq> n"
        by blast
      from tv(2) have tr: "trim newName \<noteq> []"
        by (auto simp: validateRename_def split: if_splits)
      have sc': "scopes (snd (editScopeName m n sc typed r))
                   = AList.delete n (AList.update newName sc (scopes m))"
        using tv by (simp add: editScopeName_def Let_def commit_fire_memory)
      have "validNames (m\<lparr>scopes := AList.update newName sc (scopes m)\<rparr>)"
        using assms tr by (rule validNames_update) simp
      then have "validNames (snd (editScopeName m n sc typed r))"
        by (rule validNames_delete) (simp add: sc')
      with eq EditName show ?thesis by simp
    qed
  next
    case (EditFolders selection)
    have "snd (editScopeFolders m n sc selection r) = m
        \<or> scopes (snd (editScopeFolders m n sc selection r))
             = AList.update n (sc\<lparr>folders := the selection\<rparr>) (scopes m)"
      by (auto simp: editScopeFolders_def commit_fire_memory split: option.splits)
    with assms trn have "validNames (snd (editScopeFolders m n sc selection r))"
      by (auto intro: validNames_update)
    with eq EditFolders show ?thesis by simp
  next
    case (EditDescription typed)
    have "snd (editScopeDescription m n sc typed r) = m
        \<or> scopes (snd (editScopeDescription m n sc typed r))
             = AList.update n (sc\<lparr>description := the typed\<rparr>) (scopes m)"
      by (auto simp: editScopeDescription_def commit_memory split: option.splits)
    with assms trn have "validNames (snd (editScopeDescription m n sc typed r))"
      by (auto intro: validNames_update)
    with eq EditDescription show ?thesis by simp
  qed
qed

lemma deleteScope_validNames:
  assumes "validNames m"
  shows "validNames (snd (deleteScope m scopeName picked confirmation r))"
proof (rule deleteScope_cases [of m scopeName picked confirmation r])
  assume "deleteScope m scopeName picked confirmation r = (NoOp, m)"
  with assms show ?thesis by simp
next
  fix n
  assume eq: "deleteScope m scopeName picked confirmation r =
         (case saveScopes
                 (if activeScope m = Some n
                  then m\<lparr>scopes := AList.delete n (scopes m), activeScope := None\<rparr>
                  else m\<lparr>scopes := AList.delete n (scopes m)\<rparr>) r of
            (False, m') \<Rightarrow> (Failed SaveFailed, m')
          | (True, m') \<Rightarrow> (Done, fire m'))"
  have "scopes (snd (deleteScope m scopeName picked confirmation r)) = AList.delete n (scopes m)"
    unfolding eq by (simp add: commit_fire_memory)
  with assms show ?thesis by (rule validNames_delete)
qed

lemma validNames_commands:
  assumes "validNames m"
  shows "validNames (snd (createScope m typed selection now activate r1 r2))"
    and "validNames (snd (editScope m scopeName picked action r))"
    and "validNames (snd (deleteScope m scopeName picked confirmation r))"
    and "validNames (snd (setActiveScope m n r))"
    and "validNames (snd (clearActiveScope m r))"
proof -
  from assms show "validNames (snd (createScope m typed selection now activate r1 r2))"
    by (rule createScope_validNames)
  from assms show "validNames (snd (editScope m scopeName picked action r))"
    by (rule editScope_validNames)
  from assms show "validNames (snd (deleteScope m scopeName picked confirmation r))"
    by (rule deleteScope_validNames)
  from assms validNames_memory [of "snd (setActiveScope m n r)" m]
  show "validNames (snd (setActiveScope m n r))"
    by (simp add: setActiveScope_memory)
  from assms validNames_memory [of "snd (clearActiveScope m r)" m]
  show "validNames (snd (clearActiveScope m r))"
    by (simp add: clearActiveScope_memory)
qed






lemma exampleManager_validNames: "validNames exampleManager"
  by (simp add: validNames_def exampleManager_def trim_def isSpace_def)






lemma editScopeName_refused:
  "trim newName = [] \<Longrightarrow> editScopeName m oldName sc (Some newName) r = (Failed EmptyName, m)"
  by (simp add: editScopeName_def validateRename_def)

lemma editScopeName_self:
  "snd (editScopeName m n sc (Some n) r) = m"
  by (simp add: editScopeName_def split: option.splits)

lemma editScope_rename_self_unchanged:
  "snd (editScope m (Some n) picked (Some (EditName (Some n))) r) = m"
proof (cases "n = []")
  case True
  then show ?thesis
    by (auto simp: editScope_def falsy_def editScopeName_refused trim_Nil split: option.splits)
next
  case False
  then show ?thesis
    by (auto simp: editScope_def falsy_def editScopeName_self split: option.splits)
qed

text \<open>
  C8. Clearing the active scope a second time changes nothing: the second
  \<open>clearActiveScope\<close> returns early and leaves the manager as the first one left it.
  Renaming a scope to its own name leaves the manager unchanged, and for a scope of the
  collection (the names of the collection being valid) it returns early without an error.
\<close>

theorem clear_twice_and_rename_to_self:
  "clearActiveScope (snd (clearActiveScope m r1)) r2 = (NoOp, snd (clearActiveScope m r1))
   \<and> snd (editScope m (Some n) picked (Some (EditName (Some n))) r) = m
   \<and> (validNames m \<and> map_of (scopes m) n \<noteq> None \<longrightarrow>
        fst (editScope m (Some n) picked (Some (EditName (Some n))) r) = NoOp)"
proof -
  have "falsy (activeScope (snd (clearActiveScope m r1)))"
    by (simp add: clearActiveScope_memory falsy_def)
  then have a: "clearActiveScope (snd (clearActiveScope m r1)) r2
                  = (NoOp, snd (clearActiveScope m r1))"
    by (simp add: clearActiveScope_def)
  have b: "fst (editScope m (Some n) picked (Some (EditName (Some n))) r) = NoOp"
    if "validNames m" "map_of (scopes m) n \<noteq> None"
  proof -
    from validNames_present [OF that] have tr: "trim n \<noteq> []" .
    then have "n \<noteq> []" by (auto simp: trim_Nil)
    with that tr show ?thesis
      by (auto simp: editScope_def editScopeName_def validateRename_def falsy_def)
  qed
  from a b editScope_rename_self_unchanged show ?thesis by blast
qed

theorem clear_twice_and_rename_to_self_witness:
  "validNames exampleManager \<and> map_of (scopes exampleManager) ''Frontend'' \<noteq> None
   \<and> editScope exampleManager (Some ''Frontend'') None (Some (EditName (Some ''Frontend''))) SaveOk
       = (NoOp, exampleManager)
   \<and> clearActiveScope (snd (clearActiveScope exampleManager SaveOk)) SaveOk
       = (NoOp, snd (clearActiveScope exampleManager SaveOk))
   \<and> getActiveScope (snd (clearActiveScope exampleManager SaveOk)) = None"
proof -
  note vn = exampleManager_validNames
  have b: "map_of (scopes exampleManager) ''Frontend'' \<noteq> None" by (simp add: exampleManager_def)
  note t = clear_twice_and_rename_to_self [of exampleManager SaveOk SaveOk "''Frontend''" None SaveOk]
  have c: "getActiveScope (snd (clearActiveScope exampleManager SaveOk)) = None"
    by (simp add: getActiveScope_def clearActiveScope_memory falsy_def exampleManager_def)
  from t vn b have "editScope exampleManager (Some ''Frontend'') None
      (Some (EditName (Some ''Frontend''))) SaveOk = (NoOp, exampleManager)"
    by (simp add: prod_eq_iff)
  with t c vn b show ?thesis by blast
qed

text \<open>
  C9 fails on the code. Editing the description of a scope runs to its end and writes the
  configuration, but fires no change event; so does creating a scope that is not activated.
  Editing the folders of the same scope fires the event after the two configuration updates.
\<close>

theorem editScopeDescription_fires_no_event:
  "fst (editScope exampleManager (Some ''Frontend'') None
          (Some (EditDescription (Some ''UI''))) SaveOk) = Done
   \<and> map_of (cfgScopes (snd (editScope exampleManager (Some ''Frontend'') None
          (Some (EditDescription (Some ''UI''))) SaveOk))) ''Frontend''
       = Some (frontendScope\<lparr>description := ''UI''\<rparr>)
   \<and> trace (snd (editScope exampleManager (Some ''Frontend'') None
          (Some (EditDescription (Some ''UI''))) SaveOk)) = [SavedScopes, SavedActiveScope]
   \<and> fst (createScope exampleManager (Some ''Docs'') (Some [''docs''])
            ''2024-01-02T09:00:00.000Z'' (Some ''No'') SaveOk SaveOk) = Done
   \<and> trace (snd (createScope exampleManager (Some ''Docs'') (Some [''docs''])
            ''2024-01-02T09:00:00.000Z'' (Some ''No'') SaveOk SaveOk))
       = [SavedScopes, SavedActiveScope]
   \<and> trace (snd (editScope exampleManager (Some ''Frontend'') None
          (Some (EditFolders (Some [''src'']))) SaveOk))
       = [SavedScopes, SavedActiveScope, ScopeChanged]"
  by (simp add: editScope_def editScopeDescription_def editScopeFolders_def createScope_def
      validateCreate_def trim_def isSpace_def exampleManager_def falsy_def saveScopes_def
      fire_def)

end
